theory Spec2Isabelle
  imports Complex_Main "HOL-Library.Sublist"
begin

section \<open>Timestamp grouper (src/audio/vad.py)\<close>

text \<open>
  A speech timestamp is the dictionary \<^verbatim>\<open>{"start": s, "end": e}\<close> that the voice-activity
  detector returns with \<^verbatim>\<open>return_seconds=True\<close>. Seconds are Python floats; they are
  idealised here as real numbers, so the comparison \<^verbatim>\<open>end - current_start <= max_duration\<close>
  is exact.
\<close>

record timestamp =
  ts_start :: real
  ts_end :: real

text \<open>
  The body of the \<^verbatim>\<open>for timestamp in timestamps[1:]\<close> loop of
  \<^verbatim>\<open>VADProcessor._group_segments\<close>, with the three loop variables \<^verbatim>\<open>segments\<close>,
  \<^verbatim>\<open>current_start\<close> and \<^verbatim>\<open>current_end\<close> as arguments. When the list is exhausted
  the last segment is appended.
\<close>

fun group_loop ::
  "timestamp list \<Rightarrow> real \<Rightarrow> (real \<times> real) list \<Rightarrow> real \<Rightarrow> real \<Rightarrow> (real \<times> real) list"
where
  "group_loop [] max_duration segments current_start current_end =
     segments @ [(current_start, current_end)]"
| "group_loop (t # rest) max_duration segments current_start current_end =
     (if ts_end t - current_start \<le> max_duration
      then group_loop rest max_duration segments current_start (ts_end t)
      else group_loop rest max_duration (segments @ [(current_start, current_end)])
             (ts_start t) (ts_end t))"

definition group_segments :: "timestamp list \<Rightarrow> real \<Rightarrow> (real \<times> real) list" where
  "group_segments timestamps max_duration =
     (case timestamps of
        [] \<Rightarrow> []
      | t0 # rest \<Rightarrow> group_loop rest max_duration [] (ts_start t0) (ts_end t0))"

text \<open>
  The grouper consumes dictionaries and produces tuples; to feed its output back in, each
  tuple \<open>(s, e)\<close> is read as the interval \<^verbatim>\<open>{"start": s, "end": e}\<close>.
\<close>

definition as_timestamp :: "real \<times> real \<Rightarrow> timestamp" where
  "as_timestamp g = \<lparr>ts_start = fst g, ts_end = snd g\<rparr>"

subsection \<open>The greedy forward merge, as the specification words it\<close>

text \<open>
  The specification's algorithm, keeping for every group the intervals it was merged from:
  the current group is its seed interval and the intervals merged into it so far. An
  interval joins the current group when its end minus the group's start is at most
  \<open>D\<close>; otherwise the current group is closed and the interval seeds the next one. The
  final group is always emitted.
\<close>

fun greedy_from ::
  "real \<Rightarrow> timestamp \<Rightarrow> timestamp list \<Rightarrow> timestamp list \<Rightarrow> timestamp list list"
where
  "greedy_from D seed merged [] = [seed # merged]"
| "greedy_from D seed merged (t # rest) =
     (if ts_end t - ts_start seed \<le> D
      then greedy_from D seed (merged @ [t]) rest
      else (seed # merged) # greedy_from D t [] rest)"

definition greedy_merge :: "real \<Rightarrow> timestamp list \<Rightarrow> timestamp list list" where
  "greedy_merge D intervals =
     (case intervals of [] \<Rightarrow> [] | t0 # rest \<Rightarrow> greedy_from D t0 [] rest)"

text \<open>The \<open>(start, end)\<close> of a group: the start of its seed, the end of its last member.\<close>

fun group_span :: "timestamp list \<Rightarrow> real \<times> real" where
  "group_span [] = (0, 0)"
| "group_span (seed # merged) = (ts_start seed, ts_end (last (seed # merged)))"

text \<open>The spec's reading of "time-ordered": ordered by start time, each end after its start.\<close>

definition time_ordered :: "timestamp list \<Rightarrow> bool" where
  "time_ordered ts \<longleftrightarrow> sorted (map ts_start ts) \<and> (\<forall>t \<in> set ts. ts_start t < ts_end t)"


text \<open>
  Two devices for the proofs: the loop without its accumulator, and the property of a list
  of groups that each group's end lies more than \<open>D\<close> after the start of the group
  before it.
\<close>

fun groups_from :: "real \<Rightarrow> real \<Rightarrow> real \<Rightarrow> timestamp list \<Rightarrow> (real \<times> real) list" where
  "groups_from D cs ce [] = [(cs, ce)]"
| "groups_from D cs ce (t # rest) =
     (if ts_end t - cs \<le> D then groups_from D cs (ts_end t) rest
      else (cs, ce) # groups_from D (ts_start t) (ts_end t) rest)"

fun separated :: "real \<Rightarrow> (real \<times> real) list \<Rightarrow> bool" where
  "separated D [] = True"
| "separated D [g] = True"
| "separated D (g # h # gs) = (\<not> snd h - fst g \<le> D \<and> separated D (h # gs))"

section \<open>Exceptions and string formatting\<close>

text \<open>
  Python exceptions as values. Only the classes that the program tells apart are kept
  apart: \<^verbatim>\<open>TimeoutError\<close> and \<^verbatim>\<open>RetryableError\<close> (tested with \<^verbatim>\<open>except\<close> and
  \<^verbatim>\<open>isinstance\<close> in src/api/retry.py), \<^verbatim>\<open>KeyError\<close> (a missing dictionary key) and
  \<^verbatim>\<open>OSError\<close> (file-system failures). Every other exception is \<open>Exception\<close> with its
  message. \<open>str_exn\<close> is Python's \<^verbatim>\<open>str(e)\<close>; a \<^verbatim>\<open>KeyError\<close> prints its key quoted.
\<close>

datatype exn =
    TimeoutError string
  | RetryableError string
  | KeyError string
  | OSError string
  | Exception string

fun str_exn :: "exn \<Rightarrow> string" where
  "str_exn (TimeoutError m) = m"
| "str_exn (RetryableError m) = m"
| "str_exn (KeyError k) = [CHR 0x27] @ k @ [CHR 0x27]"
| "str_exn (OSError m) = m"
| "str_exn (Exception m) = m"


text \<open>Decimal formatting of an integer inside an f-string.\<close>

fun str_nat :: "nat \<Rightarrow> string" where
  "str_nat n =
     (if n < 10 then [''0123456789'' ! n] else str_nat (n div 10) @ [''0123456789'' ! (n mod 10)])"

declare str_nat.simps [simp del]


text \<open>
  \<^verbatim>\<open>str.lower()\<close> on the ASCII letters (characters are bytes here, so the bytes of a
  non-ASCII character are left as they are), and Python's substring test \<^verbatim>\<open>k in s\<close>.
\<close>

definition lower_char :: "char \<Rightarrow> char" where
  "lower_char c = (let n = (of_char c :: nat) in if 65 \<le> n \<and> n \<le> 90 then char_of (n + 32) else c)"

definition lower :: "string \<Rightarrow> string" where
  "lower s = map lower_char s"


text \<open>\<^verbatim>\<open>sep.join(xs)\<close>.\<close>

fun join :: "string \<Rightarrow> string list \<Rightarrow> string" where
  "join sep [] = []"
| "join sep [x] = x"
| "join sep (x # y # ys) = x @ sep @ join sep (y # ys)"

section \<open>Call envelope (src/api/retry.py, src/constants.py)\<close>

definition MAX_RETRIES :: int where "MAX_RETRIES = 5"
definition DEFAULT_TIMEOUT :: int where "DEFAULT_TIMEOUT = 600"





text \<open>
  What the caller can observe of one run of \<^verbatim>\<open>retry_with_backoff\<close> besides its result:
  how often the operation was invoked, the waits passed to \<^verbatim>\<open>time.sleep\<close>, and the
  arguments of the \<^verbatim>\<open>on_retry\<close> calls.
\<close>

record retry_log =
  calls :: nat
  sleeps :: "int list"
  observed :: "(int \<times> exn) list"


definition notify :: "bool \<Rightarrow> nat \<Rightarrow> int \<Rightarrow> exn \<Rightarrow> retry_log \<Rightarrow> retry_log" where
  "notify on_retry attempt max_retries e tr =
     (if on_retry \<and> int attempt < max_retries - 1
      then tr\<lparr>observed := observed tr @ [(int attempt + 1, e)]\<rparr> else tr)"






section \<open>Processing ledger (src/obsidian/database.py)\<close>

definition SCHEMA_VERSION :: string where
  "SCHEMA_VERSION = ''1.0.0''"

datatype ProcessingStatus = PENDING | PROCESSING | COMPLETED | FAILED | SKIPPED

text \<open>The \<^verbatim>\<open>.value\<close> of a member of the enumeration.\<close>

fun status_value :: "ProcessingStatus \<Rightarrow> string" where
  "status_value PENDING = ''pending''"
| "status_value PROCESSING = ''processing''"
| "status_value COMPLETED = ''completed''"
| "status_value FAILED = ''failed''"
| "status_value SKIPPED = ''skipped''"

text \<open>
  The ledger document \<^verbatim>\<open>self.data\<close> is a dictionary loaded from JSON. Its top-level keys
  are optional here (\<open>None\<close>: the key is absent), since the loader accepts any document
  that carries a \<^verbatim>\<open>"version"\<close> key and the operations read the top level both with
  \<^verbatim>\<open>.get(key, default)\<close> and with \<^verbatim>\<open>[key]\<close>, which raises \<^verbatim>\<open>KeyError\<close>. A block
  that is present has the shape the program writes. Inside an entry every field is read
  with \<^verbatim>\<open>.get\<close>, so \<open>None\<close> stands for an absent key as well as for JSON null.
  Paths and time stamps are strings; byte counts are Python integers; durations are
  floats, idealised as reals.
\<close>

record outputs =
  transcription :: "string option"
  summary :: "string option"

record metadata =
  duration_seconds :: "real option"
  file_size_bytes :: "int option"

record file_entry =
  hash :: "string option"
  status :: "string option"
  processed_at :: "string option"
  updated_at :: "string option"
  outputs :: "outputs option"
  metadata :: "metadata option"
  error :: "string option"

record statistics =
  total_processed :: int
  total_failed :: int
  total_size_bytes :: int
  total_duration_seconds :: real

record document =
  version :: "string option"
  created_at :: "string option"
  last_updated :: "string option"
  statistics :: "statistics option"
  files :: "(string \<rightharpoonup> file_entry) option"

text \<open>
  What the store file at \<^verbatim>\<open>db_path\<close> holds. \<open>Document d\<close>: the complete serialisation
  of the dictionary \<open>d\<close>. \<open>Truncated d n\<close>: the first \<open>n\<close> characters of the
  serialisation of \<open>d\<close>, left by a write that stopped before the end; a proper prefix of
  a JSON object is not JSON, so \<^verbatim>\<open>json.load\<close> raises on it. \<open>Invalid\<close>: any other
  content, which either does not parse or parses to a value that is not a dictionary; for
  such a value \<^verbatim>\<open>load\<close> runs \<^verbatim>\<open>_initialize_schema\<close> either directly (the value is falsy
  or a string without \<^verbatim>\<open>"version"\<close>) or in its \<^verbatim>\<open>except\<close> branch (the membership test or
  \<^verbatim>\<open>.get\<close> raises).
\<close>

datatype store_file = Document document | Truncated document nat | Invalid

text \<open>
  The database object: the document in memory and the store file on disk (\<open>None\<close>: the
  file does not exist).
\<close>

record db =
  data :: document
  disk :: "store_file option"

text \<open>\<open>now\<close> is the reading of \<^verbatim>\<open>datetime.now().isoformat()\<close> during the operation.\<close>

definition initialize_schema :: "string \<Rightarrow> document" where
  "initialize_schema now =
     \<lparr>version = Some SCHEMA_VERSION,
      created_at = Some now,
      last_updated = Some now,
      statistics = Some \<lparr>total_processed = 0, total_failed = 0, total_size_bytes = 0,
                         total_duration_seconds = 0\<rparr>,
      files = Some Map.empty\<rparr>"

text \<open>\<^verbatim>\<open>not self.data\<close>: the dictionary has no key.\<close>

definition is_empty_document :: "document \<Rightarrow> bool" where
  "is_empty_document d \<longleftrightarrow>
     version d = None \<and> created_at d = None \<and> last_updated d = None \<and>
     statistics d = None \<and> files d = None"

text \<open>
  \<^verbatim>\<open>load\<close>: the document held in memory after loading from the given store contents.
  Nothing is written to disk.
\<close>

definition load :: "string \<Rightarrow> store_file option \<Rightarrow> document" where
  "load now stored =
     (case stored of
        None \<Rightarrow> initialize_schema now
      | Some (Document d) \<Rightarrow>
          if is_empty_document d \<or> version d = None then initialize_schema now else d
      | Some (Truncated d n) \<Rightarrow> initialize_schema now
      | Some Invalid \<Rightarrow> initialize_schema now)"

text \<open>\<^verbatim>\<open>ProcessedFilesDatabase(db_path)\<close>: the constructor loads.\<close>

definition open_db :: "string \<Rightarrow> store_file option \<Rightarrow> db" where
  "open_db now stored = \<lparr>data = load now stored, disk = stored\<rparr>"

text \<open>
  How a \<^verbatim>\<open>save\<close> goes wrong, as the file system decides: not at all, in \<^verbatim>\<open>mkdir\<close>, in
  \<^verbatim>\<open>open(db_path, "w")\<close> before the file is touched, or in \<^verbatim>\<open>json.dump\<close> after \<open>n\<close>
  characters have reached the file that \<^verbatim>\<open>open\<close> has just truncated.
\<close>

datatype save_fault = NoFault | MkdirFails | OpenFails | WriteFails nat

text \<open>
  \<^verbatim>\<open>save\<close> returns the exception it re-raises, if any, and the database afterwards. The
  closing \<^verbatim>\<open>logger.debug\<close> reads \<^verbatim>\<open>self.data['files']\<close> inside the \<^verbatim>\<open>try\<close>, after the
  file has been written.
\<close>

definition save :: "string \<Rightarrow> save_fault \<Rightarrow> db \<Rightarrow> exn option \<times> db" where
  "save now fault d =
     (case fault of
        MkdirFails \<Rightarrow> (Some (OSError ''mkdir''), d)
      | _ \<Rightarrow>
          let stamped = (data d)\<lparr>last_updated := Some now\<rparr> in
          (case fault of
             OpenFails \<Rightarrow> (Some (OSError ''open''), d\<lparr>data := stamped\<rparr>)
           | WriteFails n \<Rightarrow>
               (Some (OSError ''write''), \<lparr>data = stamped, disk = Some (Truncated stamped n)\<rparr>)
           | _ \<Rightarrow>
               (if files stamped = None then Some (KeyError ''files'') else None,
                \<lparr>data = stamped, disk = Some (Document stamped)\<rparr>)))"

text \<open>
  The audio files: a map from path to content. \<^verbatim>\<open>get_file_hash\<close> reads the file in
  chunks and returns the hex digest; \<open>md5\<close> is the digest function of \<^verbatim>\<open>hashlib\<close>.
  Opening a missing file raises.
\<close>

type_synonym filesystem = "string \<rightharpoonup> string"

definition get_file_hash :: "(string \<Rightarrow> string) \<Rightarrow> filesystem \<Rightarrow> string \<Rightarrow> exn + string" where
  "get_file_hash md5 fs file_path =
     (case fs file_path of
        None \<Rightarrow> Inl (OSError ''No such file or directory'')
      | Some content \<Rightarrow> Inr (md5 content))"

text \<open>\<^verbatim>\<open>self.data.get("files", {})\<close>.\<close>

definition get_files :: "document \<Rightarrow> (string \<rightharpoonup> file_entry)" where
  "get_files d = (case files d of None \<Rightarrow> Map.empty | Some fm \<Rightarrow> fm)"

definition is_processed :: "(string \<Rightarrow> string) \<Rightarrow> filesystem \<Rightarrow> db \<Rightarrow> string \<Rightarrow> bool" where
  "is_processed md5 fs d file_path =
     (case get_files (data d) file_path of
        None \<Rightarrow> False
      | Some file_entry \<Rightarrow>
          if status file_entry \<noteq> Some (status_value COMPLETED) then False
          else (case get_file_hash md5 fs file_path of
                  Inr current_hash \<Rightarrow> Some current_hash = hash file_entry
                | Inl e \<Rightarrow> False))"

text \<open>Whether the stored entry for a path, if any, has the given status.\<close>

definition entry_has_status :: "(string \<rightharpoonup> file_entry) \<Rightarrow> string \<Rightarrow> ProcessingStatus \<Rightarrow> bool" where
  "entry_has_status fm str_path st =
     (case fm str_path of
        None \<Rightarrow> False
      | Some old_entry \<Rightarrow> status old_entry = Some (status_value st))"

text \<open>Python truthiness of an optional number: neither \<^verbatim>\<open>None\<close> nor zero.\<close>

definition truthy :: "('a::zero) option \<Rightarrow> bool" where
  "truthy x = (case x of None \<Rightarrow> False | Some v \<Rightarrow> v \<noteq> 0)"

text \<open>
  \<^verbatim>\<open>add_processed_file\<close>. Every exception is logged and re-raised, so the result is the
  exception, if any, with the database as the statements before the raise left it.
  \<^verbatim>\<open>self.data["files"]\<close> and \<^verbatim>\<open>self.data["statistics"]\<close> raise \<^verbatim>\<open>KeyError\<close> when the key
  is absent; the first statistics access is the decrement of \<^verbatim>\<open>total_failed\<close> when the old
  entry was failed, and the increment of \<^verbatim>\<open>total_processed\<close>, after the entry has been
  written, when it was not.
\<close>

definition add_processed_file ::
  "(string \<Rightarrow> string) \<Rightarrow> filesystem \<Rightarrow> string \<Rightarrow> save_fault \<Rightarrow>
   string \<Rightarrow> string \<Rightarrow> string option \<Rightarrow> real option \<Rightarrow> int option \<Rightarrow> db \<Rightarrow> exn option \<times> db"
where
  "add_processed_file md5 fs now fault file_path markdown_path summary_path
     duration_seconds_arg file_size_bytes_arg d =
     (case get_file_hash md5 fs file_path of
        Inl e \<Rightarrow> (Some e, d)
      | Inr file_hash \<Rightarrow>
          (case files (data d) of
             None \<Rightarrow> (Some (KeyError ''files''), d)
           | Some fm \<Rightarrow>
               let was_failed = entry_has_status fm file_path FAILED;
                   new_entry =
                     \<lparr>hash = Some file_hash,
                      status = Some (status_value COMPLETED),
                      processed_at = Some now,
                      updated_at = Some now,
                      outputs = Some \<lparr>transcription = Some markdown_path,
                                      summary = summary_path\<rparr>,
                      metadata = Some \<lparr>duration_seconds = duration_seconds_arg,
                                       file_size_bytes = file_size_bytes_arg\<rparr>,
                      error = None\<rparr>
               in
               (case statistics (data d) of
                  None \<Rightarrow>
                    if was_failed then (Some (KeyError ''statistics''), d)
                    else (Some (KeyError ''statistics''),
                          d\<lparr>data := (data d)\<lparr>files := Some (fm(file_path \<mapsto> new_entry))\<rparr>\<rparr>)
                | Some st \<Rightarrow>
                    let st1 = (if was_failed
                               then st\<lparr>total_failed := max 0 (total_failed st - 1)\<rparr> else st);
                        st2 = (if \<not> was_failed
                               then st1\<lparr>total_processed := total_processed st1 + 1\<rparr> else st1);
                        st3 = (if truthy duration_seconds_arg
                               then st2\<lparr>total_duration_seconds :=
                                          total_duration_seconds st2 + the duration_seconds_arg\<rparr>
                               else st2);
                        st4 = (if truthy file_size_bytes_arg
                               then st3\<lparr>total_size_bytes :=
                                          total_size_bytes st3 + the file_size_bytes_arg\<rparr>
                               else st3)
                    in save now fault
                         (d\<lparr>data := (data d)\<lparr>statistics := Some st4,
                                               files := Some (fm(file_path \<mapsto> new_entry))\<rparr>\<rparr>))))"

text \<open>
  \<^verbatim>\<open>add_failed_file\<close>. The hash is best effort. The outer \<^verbatim>\<open>except\<close> logs and does not
  re-raise, so the operation always returns; what is returned here is the database as
  the statements that ran left it.
\<close>

definition add_failed_file ::
  "(string \<Rightarrow> string) \<Rightarrow> filesystem \<Rightarrow> string \<Rightarrow> save_fault \<Rightarrow>
   string \<Rightarrow> string \<Rightarrow> int option \<Rightarrow> db \<Rightarrow> db"
where
  "add_failed_file md5 fs now fault file_path error_arg file_size_bytes_arg d =
     (let file_hash = (case get_file_hash md5 fs file_path of
                         Inr h \<Rightarrow> Some h | Inl e \<Rightarrow> None)
      in case files (data d) of
           None \<Rightarrow> d
         | Some fm \<Rightarrow>
             let was_processed = entry_has_status fm file_path COMPLETED;
                 new_entry =
                   \<lparr>hash = file_hash,
                    status = Some (status_value FAILED),
                    processed_at = None,
                    updated_at = Some now,
                    outputs = Some \<lparr>transcription = None, summary = None\<rparr>,
                    metadata = Some \<lparr>duration_seconds = None,
                                     file_size_bytes = file_size_bytes_arg\<rparr>,
                    error = Some error_arg\<rparr>
             in
             (case statistics (data d) of
                None \<Rightarrow>
                  if was_processed then d
                  else d\<lparr>data := (data d)\<lparr>files := Some (fm(file_path \<mapsto> new_entry))\<rparr>\<rparr>
              | Some st \<Rightarrow>
                  let st1 = (if was_processed
                             then st\<lparr>total_processed := max 0 (total_processed st - 1)\<rparr>
                             else st);
                      st2 = (if \<not> was_processed
                             then st1\<lparr>total_failed := total_failed st1 + 1\<rparr> else st1)
                  in snd (save now fault
                            (d\<lparr>data := (data d)\<lparr>statistics := Some st2,
                                                  files := Some (fm(file_path \<mapsto> new_entry))\<rparr>\<rparr>))))"

text \<open>The metadata fields of an entry as \<^verbatim>\<open>file_entry.get("metadata", {}).get(key)\<close> reads them.\<close>

definition entry_duration :: "file_entry \<Rightarrow> real option" where
  "entry_duration e = (case metadata e of None \<Rightarrow> None | Some m \<Rightarrow> duration_seconds m)"

definition entry_size :: "file_entry \<Rightarrow> int option" where
  "entry_size e = (case metadata e of None \<Rightarrow> None | Some m \<Rightarrow> file_size_bytes m)"

text \<open>
  \<^verbatim>\<open>remove_processed_file\<close> has no \<^verbatim>\<open>try\<close>: a \<^verbatim>\<open>KeyError\<close> from
  \<^verbatim>\<open>self.data["statistics"]\<close> is raised before the entry is deleted, and an exception of
  \<^verbatim>\<open>save\<close> after.
\<close>

definition remove_processed_file :: "string \<Rightarrow> save_fault \<Rightarrow> string \<Rightarrow> db \<Rightarrow> exn option \<times> db" where
  "remove_processed_file now fault file_path d =
     (case get_files (data d) file_path of
        None \<Rightarrow> (None, d)
      | Some file_entry \<Rightarrow>
          (case statistics (data d) of
             None \<Rightarrow> (Some (KeyError ''statistics''), d)
           | Some stats \<Rightarrow>
               let stats' =
                     (if status file_entry = Some (status_value COMPLETED)
                      then
                        let s1 = stats\<lparr>total_processed := max 0 (total_processed stats - 1)\<rparr>;
                            s2 = (if truthy (entry_duration file_entry)
                                  then s1\<lparr>total_duration_seconds :=
                                            max 0 (total_duration_seconds s1
                                                   - the (entry_duration file_entry))\<rparr>
                                  else s1);
                            s3 = (if truthy (entry_size file_entry)
                                  then s2\<lparr>total_size_bytes :=
                                            max 0 (total_size_bytes s2
                                                   - the (entry_size file_entry))\<rparr>
                                  else s2)
                        in s3
                      else if status file_entry = Some (status_value FAILED)
                      then stats\<lparr>total_failed := max 0 (total_failed stats - 1)\<rparr>
                      else stats)
               in save now fault
                    (d\<lparr>data := (data d)\<lparr>statistics := Some stats',
                                          files := Some ((get_files (data d))(file_path := None))\<rparr>\<rparr>)))"

text \<open>\<^verbatim>\<open>get_statistics\<close>: \<^verbatim>\<open>self.data.get("statistics", {})\<close>.\<close>

definition get_statistics :: "db \<Rightarrow> statistics option" where
  "get_statistics d = statistics (data d)"


section \<open>Segment extractor and orchestrator (src/audio, src/transcription/service.py)\<close>

definition MAX_SEGMENT_DURATION :: real where "MAX_SEGMENT_DURATION = 600"

text \<open>
  The libraries the audio code calls, as functions of the file system and a path:
  \<^verbatim>\<open>soundfile.info(path).duration\<close>, \<^verbatim>\<open>AudioSegment.from_file(path)\<close> with the duration of
  the decoded audio, its slice \<^verbatim>\<open>audio[start_ms:end_ms]\<close> and the bytes that
  \<^verbatim>\<open>export(name, format="wav")\<close> writes, \<^verbatim>\<open>read_audio\<close> followed by
  \<^verbatim>\<open>get_speech_timestamps\<close> on a WAV file, and the name that
  \<^verbatim>\<open>tempfile.NamedTemporaryFile(suffix=..., delete=False)\<close> picks. \<open>'au\<close> is the type of
  decoded audio. Loading the detector model, exporting, and removing an existing file
  are taken to succeed.
\<close>

record 'au audio_env =
  sf_info_duration :: "filesystem \<Rightarrow> string \<Rightarrow> exn + real"
  from_file :: "filesystem \<Rightarrow> string \<Rightarrow> exn + 'au"
  duration_of :: "'au \<Rightarrow> real"
  segment_of :: "'au \<Rightarrow> int \<Rightarrow> int \<Rightarrow> 'au"
  export_wav :: "'au \<Rightarrow> string"
  speech_timestamps :: "filesystem \<Rightarrow> string \<Rightarrow> exn + timestamp list"
  named_temporary_file :: "filesystem \<Rightarrow> string \<Rightarrow> string"

text \<open>
  \<^verbatim>\<open>client.transcribe_audio(path, segment_info)\<close>, the remote service behind its retry
  envelope: what call number \<open>k\<close> of a run (counted from 0) returns or raises, given
  the file system at the time of the call and the arguments.
\<close>

type_synonym client = "nat \<Rightarrow> filesystem \<Rightarrow> string \<Rightarrow> (real \<times> real) option \<Rightarrow> exn + string"

text \<open>\<^verbatim>\<open>get_audio_duration\<close> (src/audio/utils.py): soundfile first, pydub as the fallback.\<close>

definition get_audio_duration :: "'au audio_env \<Rightarrow> filesystem \<Rightarrow> string \<Rightarrow> exn + real" where
  "get_audio_duration env fs audio_path =
     (case sf_info_duration env fs audio_path of
        Inr duration \<Rightarrow> Inr duration
      | Inl e \<Rightarrow>
          (case from_file env fs audio_path of
             Inr audio \<Rightarrow> Inr (duration_of env audio)
           | Inl e2 \<Rightarrow> Inl e2))"

text \<open>Python's \<^verbatim>\<open>int(x)\<close> on a float: truncation towards zero.\<close>

definition py_int :: "real \<Rightarrow> int" where
  "py_int x = (if 0 \<le> x then \<lfloor>x\<rfloor> else \<lceil>x\<rceil>)"

text \<open>
  The loop of \<^verbatim>\<open>_create_audio_segments\<close> over \<^verbatim>\<open>enumerate(segments)\<close>: every segment is
  exported to a temporary file of its own, which is left for the caller to delete.
\<close>

fun create_loop ::
  "'au audio_env \<Rightarrow> 'au \<Rightarrow> nat \<Rightarrow> (real \<times> real) list \<Rightarrow> filesystem \<Rightarrow>
   (real \<times> real \<times> string) list \<Rightarrow> (real \<times> real \<times> string) list \<times> filesystem"
where
  "create_loop env audio i [] fs temp_files = (temp_files, fs)"
| "create_loop env audio i ((start, end) # rest) fs temp_files =
     (let start_ms = py_int (start * 1000);
          end_ms = py_int (end * 1000);
          segment = segment_of env audio start_ms end_ms;
          temp_file = named_temporary_file env fs (''_segment_'' @ str_nat i @ ''.wav'')
      in create_loop env audio (Suc i) rest
           (fs(temp_file \<mapsto> export_wav env segment))
           (temp_files @ [(start, end, temp_file)]))"

definition create_audio_segments ::
  "'au audio_env \<Rightarrow> filesystem \<Rightarrow> string \<Rightarrow> (real \<times> real) list \<Rightarrow>
   (exn + (real \<times> real \<times> string) list) \<times> filesystem"
where
  "create_audio_segments env fs audio_path segments =
     (case from_file env fs audio_path of
        Inl e \<Rightarrow> (Inl e, fs)
      | Inr audio \<Rightarrow>
          (case create_loop env audio 0 segments fs [] of
             (temp_files, fs') \<Rightarrow> (Inr temp_files, fs')))"

text \<open>
  The \<^verbatim>\<open>try\<close> block of \<^verbatim>\<open>split_audio\<close>: detect speech in the WAV file; with no speech
  timestamps return the whole source as one segment whose path is \<^verbatim>\<open>audio_path\<close> itself,
  otherwise group the timestamps and cut the source.
\<close>

definition split_body ::
  "'au audio_env \<Rightarrow> filesystem \<Rightarrow> string \<Rightarrow> string \<Rightarrow> real \<Rightarrow>
   (exn + (real \<times> real \<times> string) list) \<times> filesystem"
where
  "split_body env fs audio_path wav_path max_duration =
     (case speech_timestamps env fs wav_path of
        Inl e \<Rightarrow> (Inl e, fs)
      | Inr timestamps \<Rightarrow>
          if timestamps = []
          then (case get_audio_duration env fs audio_path of
                  Inl e \<Rightarrow> (Inl e, fs)
                | Inr duration \<Rightarrow> (Inr [(0, duration, audio_path)], fs))
          else create_audio_segments env fs audio_path
                 (group_segments timestamps max_duration))"

text \<open>
  The first block of \<^verbatim>\<open>split_audio\<close>, "convert to WAV if needed": a source that is not
  a \<^verbatim>\<open>.wav\<close> file is decoded and exported to a temporary WAV file. The result is the
  file system afterwards, \<^verbatim>\<open>wav_path\<close> and \<^verbatim>\<open>temp_wav_path\<close> (\<open>None\<close> when the source
  is used as it is).
\<close>

definition convert_to_wav ::
  "'au audio_env \<Rightarrow> filesystem \<Rightarrow> string \<Rightarrow> exn + (filesystem \<times> string \<times> string option)"
where
  "convert_to_wav env fs audio_path =
     (if \<not> suffix ''.wav'' (lower audio_path)
      then (case from_file env fs audio_path of
              Inl e \<Rightarrow> Inl e
            | Inr audio \<Rightarrow>
                let temp_wav_path = named_temporary_file env fs ''.wav''
                in Inr (fs(temp_wav_path \<mapsto> export_wav env audio), temp_wav_path,
                        Some temp_wav_path))
      else Inr (fs, audio_path, None))"

text \<open>
  \<^verbatim>\<open>split_audio\<close>: the conversion, then the \<^verbatim>\<open>try\<close> block, whose \<^verbatim>\<open>finally\<close> clause
  removes the temporary WAV file, if one was made, on every exit.
\<close>

definition split_audio ::
  "'au audio_env \<Rightarrow> filesystem \<Rightarrow> string \<Rightarrow> real \<Rightarrow>
   (exn + (real \<times> real \<times> string) list) \<times> filesystem"
where
  "split_audio env fs audio_path max_duration =
     (case convert_to_wav env fs audio_path of
        Inl e \<Rightarrow> (Inl e, fs)
      | Inr (fs1, wav_path, temp_wav_path) \<Rightarrow>
          (case split_body env fs1 audio_path wav_path max_duration of
             (r, fs2) \<Rightarrow>
               (r, case temp_wav_path of None \<Rightarrow> fs2 | Some t \<Rightarrow> fs2(t := None))))"

text \<open>
  The failure placeholder of \<^verbatim>\<open>_transcribe_with_vad\<close>, an f-string with Japanese text
  around the segment number and the error; its characters are given as UTF-8 bytes.
\<close>

definition placeholder_prefix :: string where
  "placeholder_prefix =
     [CHR 0x5B, CHR 0xE3, CHR 0x82, CHR 0xBB, CHR 0xE3, CHR 0x82, CHR 0xB0,
      CHR 0xE3, CHR 0x83, CHR 0xA1, CHR 0xE3, CHR 0x83, CHR 0xB3, CHR 0xE3,
      CHR 0x83, CHR 0x88, CHR 0x20]"

definition placeholder_middle :: string where
  "placeholder_middle =
     [CHR 0x20, CHR 0xE3, CHR 0x81, CHR 0xAE, CHR 0xE6, CHR 0x96, CHR 0x87,
      CHR 0xE5, CHR 0xAD, CHR 0x97, CHR 0xE8, CHR 0xB5, CHR 0xB7, CHR 0xE3,
      CHR 0x81, CHR 0x93, CHR 0xE3, CHR 0x81, CHR 0x97, CHR 0xE3, CHR 0x81,
      CHR 0xAB, CHR 0xE5, CHR 0xA4, CHR 0xB1, CHR 0xE6, CHR 0x95, CHR 0x97,
      CHR 0x3A, CHR 0x20]"

definition failure_placeholder :: "nat \<Rightarrow> exn \<Rightarrow> string" where
  "failure_placeholder number e =
     placeholder_prefix @ str_nat number @ placeholder_middle @ str_exn e @ '']''"

text \<open>
  One pass of the inner \<^verbatim>\<open>try\<close> of \<^verbatim>\<open>_transcribe_with_vad\<close>: the text appended for
  segment \<open>i\<close> (counted from 0), which is the transcription, or on any exception the
  placeholder with the segment number \<open>i + 1\<close>. Segment \<open>i\<close> is call number \<open>i\<close> of
  the client.
\<close>

fun segment_block :: "client \<Rightarrow> nat \<Rightarrow> filesystem \<Rightarrow> real \<times> real \<times> string \<Rightarrow> string" where
  "segment_block cl i fs (start, end, segment_path) =
     (case cl i fs segment_path (Some (start, end)) of
        Inr segment_text \<Rightarrow> segment_text
      | Inl e \<Rightarrow> failure_placeholder (i + 1) e)"

text \<open>
  The loop of \<^verbatim>\<open>_transcribe_with_vad\<close> over \<^verbatim>\<open>enumerate(segments)\<close>: append the block of
  the segment, and in the \<^verbatim>\<open>finally\<close> clause remove the segment file if it exists.
\<close>

fun transcribe_segments ::
  "client \<Rightarrow> nat \<Rightarrow> (real \<times> real \<times> string) list \<Rightarrow> filesystem \<Rightarrow> string list \<Rightarrow>
   string list \<times> filesystem"
where
  "transcribe_segments cl i [] fs transcriptions = (transcriptions, fs)"
| "transcribe_segments cl i (seg # rest) fs transcriptions =
     transcribe_segments cl (Suc i) rest (fs(snd (snd seg) := None))
       (transcriptions @ [segment_block cl i fs seg])"

text \<open>The file system once the files of the given segments have been removed, in order.\<close>

fun files_removed :: "(real \<times> real \<times> string) list \<Rightarrow> filesystem \<Rightarrow> filesystem" where
  "files_removed [] fs = fs"
| "files_removed (seg # rest) fs = files_removed rest (fs(snd (snd seg) := None))"

definition transcribe_with_vad ::
  "'au audio_env \<Rightarrow> client \<Rightarrow> filesystem \<Rightarrow> string \<Rightarrow> (exn + string) \<times> filesystem"
where
  "transcribe_with_vad env cl fs audio_path =
     (case split_audio env fs audio_path MAX_SEGMENT_DURATION of
        (Inl e, fs1) \<Rightarrow> (Inl e, fs1)
      | (Inr segments, fs1) \<Rightarrow>
          (case transcribe_segments cl 0 segments fs1 [] of
             (transcriptions, fs2) \<Rightarrow>
               (Inr (join [CHR 0x0A, CHR 0x0A] transcriptions), fs2)))"

definition transcribe_direct ::
  "client \<Rightarrow> filesystem \<Rightarrow> string \<Rightarrow> (exn + string) \<times> filesystem"
where
  "transcribe_direct cl fs audio_path = (cl 0 fs audio_path None, fs)"

text \<open>\<^verbatim>\<open>transcribe_file\<close>: probe the duration, then choose. Every exception is re-raised.\<close>

definition transcribe_file ::
  "'au audio_env \<Rightarrow> client \<Rightarrow> filesystem \<Rightarrow> string \<Rightarrow> bool \<Rightarrow> real \<Rightarrow>
   (exn + string) \<times> filesystem"
where
  "transcribe_file env cl fs audio_path use_vad vad_threshold_seconds =
     (case get_audio_duration env fs audio_path of
        Inl e \<Rightarrow> (Inl e, fs)
      | Inr duration \<Rightarrow>
          if use_vad \<and> duration > vad_threshold_seconds
          then transcribe_with_vad env cl fs audio_path
          else transcribe_direct cl fs audio_path)"

subsection \<open>An example environment\<close>

text \<open>
  A concrete environment for the examples below: every probe reports a duration of 600
  seconds, decoding succeeds, temporary files are named \<^verbatim>\<open>/tmp/x\<close> followed by the
  suffix, and the detector reports the given speech intervals. The example client fails
  its call number 1 with the message of an exhausted retry budget and otherwise answers
  \<^verbatim>\<open>whole\<close> for a whole file and \<^verbatim>\<open>part\<close> for a segment.
\<close>

definition example_env :: "timestamp list \<Rightarrow> string audio_env" where
  "example_env speech =
     \<lparr>sf_info_duration = (\<lambda>fs p. Inr 600),
      from_file = (\<lambda>fs p. case fs p of None \<Rightarrow> Inl (OSError ''missing'') | Some c \<Rightarrow> Inr c),
      duration_of = (\<lambda>audio. 600),
      segment_of = (\<lambda>audio start_ms end_ms. audio),
      export_wav = (\<lambda>audio. audio),
      speech_timestamps = (\<lambda>fs p. Inr speech),
      named_temporary_file = (\<lambda>fs sfx. ''/tmp/x'' @ sfx)\<rparr>"

definition example_client :: client where
  "example_client k fs path segment_info =
     (if k = 1 then Inl (Exception ''Maximum retries (5) reached. Last error: 503'')
      else case segment_info of None \<Rightarrow> Inr ''whole'' | Some _ \<Rightarrow> Inr ''part'')"

definition three_intervals :: "timestamp list" where
  "three_intervals =
     [\<lparr>ts_start = 0, ts_end = 5\<rparr>, \<lparr>ts_start = 700, ts_end = 705\<rparr>,
      \<lparr>ts_start = 1400, ts_end = 1405\<rparr>]"

section \<open>Verification: timestamp grouper\<close>

lemma group_loop_groups_from:
  "group_loop ts D segs cs ce = segs @ groups_from D cs ce ts"
  by (induction ts arbitrary: segs cs ce) simp_all

lemma group_loop_greedy:
  "group_loop rest D segs (ts_start seed) (ts_end (last (seed # merged)))
     = segs @ map group_span (greedy_from D seed merged rest)"
proof (induction rest arbitrary: segs seed merged)
  case Nil
  show ?case by simp
next
  case (Cons t rest)
  show ?case
  proof (cases "ts_end t - ts_start seed \<le> D")
    case True
    have "group_loop rest D segs (ts_start seed) (ts_end (last (seed # (merged @ [t]))))
            = segs @ map group_span (greedy_from D seed (merged @ [t]) rest)"
      by (rule Cons.IH)
    with True show ?thesis by simp
  next
    case False
    have "group_loop rest D (segs @ [group_span (seed # merged)]) (ts_start t)
              (ts_end (last (t # [])))
            = (segs @ [group_span (seed # merged)]) @ map group_span (greedy_from D t [] rest)"
      by (rule Cons.IH)
    with False show ?thesis by simp
  qed
qed

lemma group_segments_refines:
  "group_segments ts D = map group_span (greedy_merge D ts)"
proof (cases ts)
  case Nil
  then show ?thesis by (simp add: group_segments_def greedy_merge_def)
next
  case (Cons t rest)
  have "group_loop rest D [] (ts_start t) (ts_end (last (t # [])))
          = [] @ map group_span (greedy_from D t [] rest)"
    by (rule group_loop_greedy)
  with Cons show ?thesis by (simp add: group_segments_def greedy_merge_def)
qed

lemma concat_greedy_from: "concat (greedy_from D seed merged rest) = seed # merged @ rest"
  by (induction rest arbitrary: seed merged) simp_all

lemma concat_greedy_merge: "concat (greedy_merge D ts) = ts"
  by (cases ts) (simp_all add: greedy_merge_def concat_greedy_from)

lemma greedy_from_nonempty: "g \<in> set (greedy_from D seed merged rest) \<Longrightarrow> g \<noteq> []"
  by (induction rest arbitrary: seed merged) (auto split: if_splits)

lemma greedy_from_span:
  "merged \<noteq> [] \<longrightarrow> ts_end (last merged) - ts_start seed \<le> D \<Longrightarrow>
   g \<in> set (greedy_from D seed merged rest) \<Longrightarrow> 1 < length g \<Longrightarrow>
   snd (group_span g) - fst (group_span g) \<le> D"
proof (induction rest arbitrary: seed merged)
  case Nil
  then show ?case by (cases merged) auto
next
  case (Cons t rest)
  show ?case
  proof (cases "ts_end t - ts_start seed \<le> D")
    case True
    with Cons.prems have "g \<in> set (greedy_from D seed (merged @ [t]) rest)" by simp
    moreover from True
    have "merged @ [t] \<noteq> [] \<longrightarrow> ts_end (last (merged @ [t])) - ts_start seed \<le> D"
      by simp
    ultimately show ?thesis using Cons.IH Cons.prems(3) by blast
  next
    case False
    with Cons.prems have "g = seed # merged \<or> g \<in> set (greedy_from D t [] rest)" by simp
    then show ?thesis
    proof
      assume g: "g = seed # merged"
      with Cons.prems(3) have "merged \<noteq> []" by auto
      with Cons.prems(1) g show ?thesis by simp
    next
      assume "g \<in> set (greedy_from D t [] rest)"
      then show ?thesis using Cons.IH[of "[]" t] Cons.prems(3) by simp
    qed
  qed
qed

lemma greedy_merge_groups:
  assumes "g \<in> set (greedy_merge D ts)"
  shows "g \<noteq> []" and "1 < length g \<longrightarrow> snd (group_span g) - fst (group_span g) \<le> D"
proof -
  from assms obtain t rest where ts: "ts = t # rest" and g: "g \<in> set (greedy_from D t [] rest)"
    by (cases ts) (auto simp: greedy_merge_def)
  from g show "g \<noteq> []" by (rule greedy_from_nonempty)
  show "1 < length g \<longrightarrow> snd (group_span g) - fst (group_span g) \<le> D"
    using greedy_from_span[of "[]" t D g rest] g by simp
qed

text \<open>
  Claim C3. The grouper computes the specification's greedy forward merge: its output is
  the list of spans (start of the seed, end of the last member) of the groups that the
  merge forms. The groups, concatenated, are the input, so no interval is split or
  dropped; no group is empty; and every group merged from more than one interval spans at
  most \<open>D\<close>. A single interval is returned as it is, whatever its span; no input gives no
  output; and the intervals (0,5), (5,12), (40,45) with \<open>D = 20\<close> give (0,12), (40,45).
\<close>

theorem group_segments_greedy_merge:
  "group_segments ts D = map group_span (greedy_merge D ts)
   \<and> concat (greedy_merge D ts) = ts
   \<and> (\<forall>g \<in> set (greedy_merge D ts).
        g \<noteq> [] \<and> (1 < length g \<longrightarrow> snd (group_span g) - fst (group_span g) \<le> D))
   \<and> group_segments [t] D = [(ts_start t, ts_end t)]
   \<and> group_segments [] D = []
   \<and> group_segments [\<lparr>ts_start = 0, ts_end = 5\<rparr>, \<lparr>ts_start = 5, ts_end = 12\<rparr>,
                      \<lparr>ts_start = 40, ts_end = 45\<rparr>] 20 = [(0, 12), (40, 45)]"
proof (intro conjI)
  show "group_segments ts D = map group_span (greedy_merge D ts)"
    by (rule group_segments_refines)
  show "concat (greedy_merge D ts) = ts"
    by (rule concat_greedy_merge)
  show "\<forall>g \<in> set (greedy_merge D ts).
          g \<noteq> [] \<and> (1 < length g \<longrightarrow> snd (group_span g) - fst (group_span g) \<le> D)"
    using greedy_merge_groups by blast
  show "group_segments [t] D = [(ts_start t, ts_end t)]"
    by (simp add: group_segments_def)
  show "group_segments [] D = []"
    by (simp add: group_segments_def)
  show "group_segments [\<lparr>ts_start = 0, ts_end = 5\<rparr>, \<lparr>ts_start = 5, ts_end = 12\<rparr>,
                        \<lparr>ts_start = 40, ts_end = 45\<rparr>] 20 = [(0, 12), (40, 45)]"
    by (simp add: group_segments_def)
qed

theorem group_segments_greedy_merge_witness:
  "[\<lparr>ts_start = 0, ts_end = 5\<rparr>, \<lparr>ts_start = 5, ts_end = 12\<rparr>]
     \<in> set (greedy_merge 20 [\<lparr>ts_start = 0, ts_end = 5\<rparr>, \<lparr>ts_start = 5, ts_end = 12\<rparr>,
                              \<lparr>ts_start = 40, ts_end = 45\<rparr>])
   \<and> 1 < length [\<lparr>ts_start = 0, ts_end = 5\<rparr>, \<lparr>ts_start = 5, ts_end = 12\<rparr>]
   \<and> snd (group_span [\<lparr>ts_start = 0, ts_end = 5\<rparr>, \<lparr>ts_start = 5, ts_end = 12\<rparr>])
       - fst (group_span [\<lparr>ts_start = 0, ts_end = 5\<rparr>, \<lparr>ts_start = 5, ts_end = 12\<rparr>]) \<le> (20::real)
   \<and> group_segments [\<lparr>ts_start = 0, ts_end = 5\<rparr>, \<lparr>ts_start = 5, ts_end = 12\<rparr>,
                      \<lparr>ts_start = 40, ts_end = 45\<rparr>] 20
       = map group_span (greedy_merge 20 [\<lparr>ts_start = 0, ts_end = 5\<rparr>,
            \<lparr>ts_start = 5, ts_end = 12\<rparr>, \<lparr>ts_start = 40, ts_end = 45\<rparr>])"
  using group_segments_greedy_merge
          [of "[\<lparr>ts_start = 0, ts_end = 5\<rparr>, \<lparr>ts_start = 5, ts_end = 12\<rparr>,
                \<lparr>ts_start = 40, ts_end = 45\<rparr>]" 20 "\<lparr>ts_start = 0, ts_end = 5\<rparr>"]
  by (simp add: greedy_merge_def)

lemma separated_regroup:
  "separated D (g # gs) \<Longrightarrow> groups_from D (fst g) (snd g) (map as_timestamp gs) = g # gs"
  by (induction gs arbitrary: g) (simp_all add: as_timestamp_def)

lemma groups_from_head:
  "\<exists>e rest. groups_from D cs ce ts = (cs, e) # rest \<and> (e = ce \<or> (\<exists>t \<in> set ts. e = ts_end t))"
  by (induction ts arbitrary: ce) (simp, fastforce)

lemma groups_from_separated:
  "sorted (map ts_end ts) \<Longrightarrow> separated D (groups_from D cs ce ts)"
proof (induction ts arbitrary: cs ce)
  case Nil
  show ?case by simp
next
  case (Cons t ts)
  from Cons.prems have srt: "sorted (map ts_end ts)"
    and lb: "\<forall>u \<in> set ts. ts_end t \<le> ts_end u"
    by simp_all
  show ?case
  proof (cases "ts_end t - cs \<le> D")
    case True
    then show ?thesis using Cons.IH[OF srt] by simp
  next
    case False
    obtain e rest where hd: "groups_from D (ts_start t) (ts_end t) ts = (ts_start t, e) # rest"
      and e: "e = ts_end t \<or> (\<exists>u \<in> set ts. e = ts_end u)"
      using groups_from_head by blast
    from e lb have "ts_end t \<le> e" by auto
    with False have "\<not> e - cs \<le> D" by simp
    moreover have "separated D (groups_from D (ts_start t) (ts_end t) ts)"
      by (rule Cons.IH[OF srt])
    ultimately show ?thesis using False hd by simp
  qed
qed

text \<open>
  Claim C4, as stated, fails: the three intervals (0,5), (1,100), (2,3) are ordered by
  start time and each ends after it starts, yet with \<open>D = 20\<close> the grouper returns
  (0,5), (1,3), and regrouping that gives (0,3).
\<close>

theorem group_segments_not_idempotent:
  "time_ordered [\<lparr>ts_start = 0, ts_end = 5\<rparr>, \<lparr>ts_start = 1, ts_end = 100\<rparr>,
                 \<lparr>ts_start = 2, ts_end = 3\<rparr>]
   \<and> group_segments [\<lparr>ts_start = 0, ts_end = 5\<rparr>, \<lparr>ts_start = 1, ts_end = 100\<rparr>,
                      \<lparr>ts_start = 2, ts_end = 3\<rparr>] 20 = [(0, 5), (1, 3)]
   \<and> group_segments (map as_timestamp [(0, 5), (1, 3)]) 20 = [(0, 3)]
   \<and> group_segments
        (map as_timestamp
          (group_segments [\<lparr>ts_start = 0, ts_end = 5\<rparr>, \<lparr>ts_start = 1, ts_end = 100\<rparr>,
                           \<lparr>ts_start = 2, ts_end = 3\<rparr>] 20)) 20
      \<noteq> group_segments [\<lparr>ts_start = 0, ts_end = 5\<rparr>, \<lparr>ts_start = 1, ts_end = 100\<rparr>,
                         \<lparr>ts_start = 2, ts_end = 3\<rparr>] 20"
  by (simp add: time_ordered_def group_segments_def as_timestamp_def)

text \<open>
  Claim C4, amended. When the end times of the intervals are non-decreasing (as they are
  for intervals in time order that do not overlap), regrouping the grouper's output with
  the same \<open>D\<close> returns that output unchanged, for every \<open>D\<close>.
\<close>

theorem group_segments_idempotent:
  assumes "sorted (map ts_end ts)"
  shows "group_segments (map as_timestamp (group_segments ts D)) D = group_segments ts D"
proof (cases ts)
  case Nil
  then show ?thesis by (simp add: group_segments_def)
next
  case (Cons t rest)
  with assms have srt: "sorted (map ts_end rest)" by simp
  obtain e gs where hd: "groups_from D (ts_start t) (ts_end t) rest = (ts_start t, e) # gs"
    using groups_from_head by blast
  have sep: "separated D ((ts_start t, e) # gs)"
    using groups_from_separated[OF srt, of D "ts_start t" "ts_end t"] hd by simp
  have out: "group_segments ts D = (ts_start t, e) # gs"
    using Cons hd by (simp add: group_segments_def group_loop_groups_from)
  have "group_segments (map as_timestamp ((ts_start t, e) # gs)) D
          = groups_from D (ts_start t) e (map as_timestamp gs)"
    by (simp add: group_segments_def group_loop_groups_from as_timestamp_def)
  also have "\<dots> = (ts_start t, e) # gs"
    using separated_regroup[OF sep] by simp
  finally show ?thesis using out by simp
qed

theorem group_segments_idempotent_witness:
  "sorted (map ts_end [\<lparr>ts_start = 0, ts_end = 5\<rparr>, \<lparr>ts_start = 5, ts_end = 12\<rparr>,
                        \<lparr>ts_start = 40, ts_end = 45\<rparr>])
   \<and> group_segments
        (map as_timestamp
          (group_segments [\<lparr>ts_start = 0, ts_end = 5\<rparr>, \<lparr>ts_start = 5, ts_end = 12\<rparr>,
                           \<lparr>ts_start = 40, ts_end = 45\<rparr>] 20)) 20
      = [(0, 12), (40, 45)]"
proof -
  have h: "sorted (map ts_end [\<lparr>ts_start = 0, ts_end = 5\<rparr>, \<lparr>ts_start = 5, ts_end = 12\<rparr>,
                               \<lparr>ts_start = 40, ts_end = 45\<rparr>])"
    by simp
  show ?thesis
    using h group_segments_idempotent[OF h, of 20] by (simp add: group_segments_def)
qed

section \<open>Verification: call envelope\<close>

lemma calls_notify [simp]: "calls (notify on_retry attempt max_retries e tr) = calls tr"
  by (simp add: notify_def)






section \<open>Verification: processing ledger\<close>

lemma get_files_save [simp]: "get_files (data (snd (save now fault d))) = get_files (data d)"
  by (cases fault) (simp_all add: save_def get_files_def Let_def)

lemma get_files_update [simp]: "get_files (doc\<lparr>files := Some fm\<rparr>) = fm"
  by (simp add: get_files_def)

lemma get_files_statistics_update [simp]:
  "get_files (doc\<lparr>statistics := s\<rparr>) = get_files doc"
  by (simp add: get_files_def)

lemma statistics_save [simp]: "statistics (data (snd (save now fault d))) = statistics (data d)"
  by (cases fault) (simp_all add: save_def Let_def)

text \<open>
  Claim C1, evaluated on the code. On a new ledger, for a file that exists, recording a
  failure and then a success for the same path leaves the entry completed, the call
  returning normally, with \<open>total_failed\<close> back at 0 and \<open>total_processed\<close> still 0:
  the success counter is not incremented when the prior entry was failed.
\<close>

theorem failure_then_success_counters:
  "fst (add_processed_file md5 [p \<mapsto> content] t2 NoFault p markdown_path summary_path dur sz
          (add_failed_file md5 [p \<mapsto> content] t1 NoFault p ''network down'' sz'
             (open_db t0 None))) = None
   \<and> map_option status
        (get_files (data (snd
          (add_processed_file md5 [p \<mapsto> content] t2 NoFault p markdown_path summary_path dur sz
            (add_failed_file md5 [p \<mapsto> content] t1 NoFault p ''network down'' sz'
               (open_db t0 None))))) p) = Some (Some ''completed'')
   \<and> map_option total_failed
        (get_statistics
          (add_failed_file md5 [p \<mapsto> content] t1 NoFault p ''network down'' sz'
             (open_db t0 None))) = Some 1
   \<and> map_option total_failed
        (get_statistics (snd
          (add_processed_file md5 [p \<mapsto> content] t2 NoFault p markdown_path summary_path dur sz
            (add_failed_file md5 [p \<mapsto> content] t1 NoFault p ''network down'' sz'
               (open_db t0 None))))) = Some 0
   \<and> map_option total_processed
        (get_statistics (snd
          (add_processed_file md5 [p \<mapsto> content] t2 NoFault p markdown_path summary_path dur sz
            (add_failed_file md5 [p \<mapsto> content] t1 NoFault p ''network down'' sz'
               (open_db t0 None))))) = Some 0"
  by (simp add: open_db_def load_def initialize_schema_def add_failed_file_def
        add_processed_file_def get_file_hash_def entry_has_status_def save_def
        get_statistics_def get_files_def Let_def)

lemma is_processed_iff:
  "is_processed md5 fs d p \<longleftrightarrow>
     (\<exists>e content. get_files (data d) p = Some e
        \<and> status e = Some (status_value COMPLETED)
        \<and> fs p = Some content \<and> hash e = Some (md5 content))"
  by (auto simp: is_processed_def get_file_hash_def split: option.splits)

lemma is_processed_hash_failure:
  "get_file_hash md5 fs p = Inl x \<Longrightarrow> \<not> is_processed md5 fs d p"
  by (auto simp: is_processed_def split: option.splits)

lemma remove_then_not_processed:
  assumes "fst (remove_processed_file now fault p d) \<noteq> Some (KeyError ''statistics'')"
  shows "\<not> is_processed md5 fs (snd (remove_processed_file now fault p d)) p"
proof (cases "get_files (data d) p")
  case None
  then show ?thesis by (simp add: remove_processed_file_def is_processed_def)
next
  case (Some e)
  show ?thesis
  proof (cases "statistics (data d)")
    case None
    with Some assms show ?thesis by (simp add: remove_processed_file_def)
  next
    case (Some st)
    with \<open>get_files (data d) p = Some e\<close> show ?thesis
      by (simp add: remove_processed_file_def is_processed_def Let_def)
  qed
qed

lemma add_then_processed:
  assumes "fst (add_processed_file md5 fs now fault p markdown_path summary_path dur sz d) = None"
  shows "is_processed md5 fs
           (snd (add_processed_file md5 fs now fault p markdown_path summary_path dur sz d)) p"
proof (cases "fs p")
  case None
  with assms show ?thesis by (simp add: add_processed_file_def get_file_hash_def)
next
  case (Some content)
  show ?thesis
  proof (cases "files (data d)")
    case None
    with Some assms show ?thesis by (simp add: add_processed_file_def get_file_hash_def)
  next
    case fm: (Some fm)
    show ?thesis
    proof (cases "statistics (data d)")
      case None
      with Some fm assms show ?thesis
        by (simp add: add_processed_file_def get_file_hash_def Let_def split: if_splits)
    next
      case st: (Some st)
      with Some fm show ?thesis
        by (simp add: add_processed_file_def get_file_hash_def Let_def is_processed_def)
    qed
  qed
qed

text \<open>
  Claim C2. \<^verbatim>\<open>is_processed\<close> holds exactly when the path has a stored entry whose status is
  completed and whose stored hash is the hash of the file's current content; when hashing
  raises, the answer is false. After \<^verbatim>\<open>remove_processed_file\<close> (unless it raised the
  \<^verbatim>\<open>KeyError\<close> of a document without a statistics block, before deleting anything) the
  path is not processed; after \<^verbatim>\<open>add_processed_file\<close> has returned, with the file system
  unchanged, it is.
\<close>

theorem is_processed_correct:
  "(is_processed md5 fs d p \<longleftrightarrow>
      (\<exists>e content. get_files (data d) p = Some e
         \<and> status e = Some (status_value COMPLETED)
         \<and> fs p = Some content \<and> hash e = Some (md5 content)))
   \<and> ((\<exists>x. get_file_hash md5 fs p = Inl x) \<longrightarrow> \<not> is_processed md5 fs d p)
   \<and> (fst (remove_processed_file now fault p d) \<noteq> Some (KeyError ''statistics'')
        \<longrightarrow> \<not> is_processed md5 fs (snd (remove_processed_file now fault p d)) p)
   \<and> (fst (add_processed_file md5 fs now fault p markdown_path summary_path dur sz d) = None
        \<longrightarrow> is_processed md5 fs
              (snd (add_processed_file md5 fs now fault p markdown_path summary_path dur sz d))
              p)"
proof (intro conjI impI)
  show "is_processed md5 fs d p \<longleftrightarrow>
      (\<exists>e content. get_files (data d) p = Some e
         \<and> status e = Some (status_value COMPLETED)
         \<and> fs p = Some content \<and> hash e = Some (md5 content))"
    by (rule is_processed_iff)
next
  assume "\<exists>x. get_file_hash md5 fs p = Inl x"
  then obtain x where "get_file_hash md5 fs p = Inl x" ..
  then show "\<not> is_processed md5 fs d p"
    by (rule is_processed_hash_failure)
next
  assume "fst (remove_processed_file now fault p d) \<noteq> Some (KeyError ''statistics'')"
  then show "\<not> is_processed md5 fs (snd (remove_processed_file now fault p d)) p"
    by (rule remove_then_not_processed)
next
  assume "fst (add_processed_file md5 fs now fault p markdown_path summary_path dur sz d) = None"
  then show "is_processed md5 fs
      (snd (add_processed_file md5 fs now fault p markdown_path summary_path dur sz d)) p"
    by (rule add_then_processed)
qed

theorem is_processed_correct_witness:
  "fst (add_processed_file rev [''/v/a.mp3'' \<mapsto> ''audio''] ''t1'' NoFault ''/v/a.mp3''
          ''/v/a.md'' None None None (open_db ''t0'' None)) = None
   \<and> is_processed rev [''/v/a.mp3'' \<mapsto> ''audio'']
        (snd (add_processed_file rev [''/v/a.mp3'' \<mapsto> ''audio''] ''t1'' NoFault ''/v/a.mp3''
                ''/v/a.md'' None None None (open_db ''t0'' None))) ''/v/a.mp3''
   \<and> fst (remove_processed_file ''t2'' NoFault ''/v/a.mp3''
            (snd (add_processed_file rev [''/v/a.mp3'' \<mapsto> ''audio''] ''t1'' NoFault ''/v/a.mp3''
                    ''/v/a.md'' None None None (open_db ''t0'' None))))
        \<noteq> Some (KeyError ''statistics'')
   \<and> \<not> is_processed rev [''/v/a.mp3'' \<mapsto> ''audio'']
          (snd (remove_processed_file ''t2'' NoFault ''/v/a.mp3''
            (snd (add_processed_file rev [''/v/a.mp3'' \<mapsto> ''audio''] ''t1'' NoFault ''/v/a.mp3''
                    ''/v/a.md'' None None None (open_db ''t0'' None))))) ''/v/a.mp3''
   \<and> (\<exists>x. get_file_hash rev Map.empty ''/v/a.mp3'' = Inl x)
   \<and> \<not> is_processed rev Map.empty
          (snd (add_processed_file rev [''/v/a.mp3'' \<mapsto> ''audio''] ''t1'' NoFault ''/v/a.mp3''
                  ''/v/a.md'' None None None (open_db ''t0'' None))) ''/v/a.mp3''"
proof -
  let ?fs = "[''/v/a.mp3'' \<mapsto> ''audio'']"
  let ?d0 = "open_db ''t0'' None"
  let ?d1 = "snd (add_processed_file rev ?fs ''t1'' NoFault ''/v/a.mp3'' ''/v/a.md'' None None
                    None ?d0)"
  have a: "fst (add_processed_file rev ?fs ''t1'' NoFault ''/v/a.mp3'' ''/v/a.md'' None None
                  None ?d0) = None"
    by (simp add: open_db_def load_def initialize_schema_def add_processed_file_def
          get_file_hash_def entry_has_status_def save_def truthy_def Let_def)
  have r: "fst (remove_processed_file ''t2'' NoFault ''/v/a.mp3'' ?d1)
             \<noteq> Some (KeyError ''statistics'')"
    by (simp add: open_db_def load_def initialize_schema_def add_processed_file_def
          get_file_hash_def entry_has_status_def save_def truthy_def Let_def
          remove_processed_file_def get_files_def entry_duration_def entry_size_def)
  have h: "\<exists>x. get_file_hash rev Map.empty ''/v/a.mp3'' = Inl x"
    by (simp add: get_file_hash_def)
  have p1: "is_processed rev ?fs ?d1 ''/v/a.mp3''"
    by (rule is_processed_correct[of rev ?fs ?d0 "''/v/a.mp3''" "''t1''" NoFault "''/v/a.md''"
          None None None, THEN conjunct2, THEN conjunct2, THEN conjunct2, THEN mp, OF a])
  have p2: "\<not> is_processed rev ?fs
               (snd (remove_processed_file ''t2'' NoFault ''/v/a.mp3'' ?d1)) ''/v/a.mp3''"
    by (rule is_processed_correct[of rev ?fs ?d1 "''/v/a.mp3''" "''t2''" NoFault,
          THEN conjunct2, THEN conjunct2, THEN conjunct1, THEN mp, OF r])
  have p3: "\<not> is_processed rev Map.empty ?d1 ''/v/a.mp3''"
    by (rule is_processed_correct[of rev Map.empty ?d1 "''/v/a.mp3''",
          THEN conjunct2, THEN conjunct1, THEN mp, OF h])
  show ?thesis
    using a p1 r p2 h p3 by (intro conjI) assumption+
qed

text \<open>
  Claim C8, as stated, fails. Take the database after one success has been recorded and
  saved, so that the store holds a document with the entry. A save that fails while
  writing, here before the first character, leaves a truncated file in place of that
  document: the store differs from the prior one, and loading it gives an empty schema
  without the entry, while the prior store loaded with the entry.
\<close>

theorem save_failure_corrupts_store:
  "fst (save ''t2'' (WriteFails 0)
          (snd (add_processed_file rev [''/v/a.mp3'' \<mapsto> ''audio''] ''t1'' NoFault ''/v/a.mp3''
                  ''/v/a.md'' None None None (open_db ''t0'' None)))) = Some (OSError ''write'')
   \<and> disk (snd (save ''t2'' (WriteFails 0)
          (snd (add_processed_file rev [''/v/a.mp3'' \<mapsto> ''audio''] ''t1'' NoFault ''/v/a.mp3''
                  ''/v/a.md'' None None None (open_db ''t0'' None)))))
       \<noteq> disk (snd (add_processed_file rev [''/v/a.mp3'' \<mapsto> ''audio''] ''t1'' NoFault
                  ''/v/a.mp3'' ''/v/a.md'' None None None (open_db ''t0'' None)))
   \<and> get_files (load ''t3''
         (disk (snd (add_processed_file rev [''/v/a.mp3'' \<mapsto> ''audio''] ''t1'' NoFault
                  ''/v/a.mp3'' ''/v/a.md'' None None None (open_db ''t0'' None)))))
         ''/v/a.mp3'' \<noteq> None
   \<and> get_files (load ''t3''
         (disk (snd (save ''t2'' (WriteFails 0)
            (snd (add_processed_file rev [''/v/a.mp3'' \<mapsto> ''audio''] ''t1'' NoFault
                    ''/v/a.mp3'' ''/v/a.md'' None None None (open_db ''t0'' None)))))))
         ''/v/a.mp3'' = None"
  by (simp add: open_db_def load_def initialize_schema_def add_processed_file_def
        get_file_hash_def entry_has_status_def save_def truthy_def Let_def get_files_def
        is_empty_document_def)

text \<open>
  Claim C8, amended. \<^verbatim>\<open>save\<close> writes the store file in place, with no temporary file
  and no rename. Every failure is re-raised to the caller. A save that fails before the
  file is opened leaves the store as it was. A save that fails while writing leaves, in
  place of the prior contents, a truncated serialisation of the new document, from which
  the loader starts over with an empty schema. A save that succeeds leaves the complete
  new document.
\<close>

theorem save_writes_in_place:
  "(fault \<noteq> NoFault \<longrightarrow> fst (save now fault d) \<noteq> None)
   \<and> (fault = MkdirFails \<or> fault = OpenFails \<longrightarrow> disk (snd (save now fault d)) = disk d)
   \<and> (fault = WriteFails n \<longrightarrow>
        disk (snd (save now fault d)) = Some (Truncated ((data d)\<lparr>last_updated := Some now\<rparr>) n)
        \<and> load later (disk (snd (save now fault d))) = initialize_schema later)
   \<and> (fault = NoFault \<longrightarrow>
        disk (snd (save now fault d)) = Some (Document ((data d)\<lparr>last_updated := Some now\<rparr>)))"
  by (cases fault) (simp_all add: save_def load_def Let_def)

theorem save_writes_in_place_witness:
  "WriteFails 5 \<noteq> NoFault
   \<and> fst (save ''t1'' (WriteFails 5) (open_db ''t0'' None)) \<noteq> None
   \<and> disk (snd (save ''t1'' (WriteFails 5) (open_db ''t0'' None)))
       = Some (Truncated ((initialize_schema ''t0'')\<lparr>last_updated := Some ''t1''\<rparr>) 5)
   \<and> load ''t2'' (disk (snd (save ''t1'' (WriteFails 5) (open_db ''t0'' None))))
       = initialize_schema ''t2''
   \<and> (OpenFails = MkdirFails \<or> OpenFails = OpenFails)
   \<and> disk (snd (save ''t1'' OpenFails (open_db ''t0'' None))) = None
   \<and> disk (snd (save ''t1'' NoFault (open_db ''t0'' None)))
       = Some (Document ((initialize_schema ''t0'')\<lparr>last_updated := Some ''t1''\<rparr>))"
  using save_writes_in_place[of "WriteFails 5" "''t1''" "open_db ''t0'' None" 5 "''t2''"]
    save_writes_in_place[of OpenFails "''t1''" "open_db ''t0'' None" 0 "''t2''"]
    save_writes_in_place[of NoFault "''t1''" "open_db ''t0'' None" 0 "''t2''"]
  by (simp add: open_db_def load_def)

text \<open>
  Claim C9, as stated, fails for a foreign version. A store document tagged with the
  version 2.0.0, which is not the supported 1.0.0, is kept by the loader as it is, with
  its entry.
\<close>

theorem load_keeps_foreign_version:
  "version (load ''t1'' (Some (Document
       \<lparr>version = Some ''2.0.0'', created_at = Some ''t0'', last_updated = Some ''t0'',
        statistics = None,
        files = Some [''/v/a.mp3'' \<mapsto>
           \<lparr>hash = Some ''h'', status = Some ''completed'', processed_at = None,
            updated_at = None, outputs = None, metadata = None, error = None\<rparr>]\<rparr>)))
     = Some ''2.0.0''
   \<and> Some ''2.0.0'' \<noteq> Some SCHEMA_VERSION
   \<and> load ''t1'' (Some (Document
       \<lparr>version = Some ''2.0.0'', created_at = Some ''t0'', last_updated = Some ''t0'',
        statistics = None,
        files = Some [''/v/a.mp3'' \<mapsto>
           \<lparr>hash = Some ''h'', status = Some ''completed'', processed_at = None,
            updated_at = None, outputs = None, metadata = None, error = None\<rparr>]\<rparr>))
     \<noteq> initialize_schema ''t1''
   \<and> get_files (load ''t1'' (Some (Document
       \<lparr>version = Some ''2.0.0'', created_at = Some ''t0'', last_updated = Some ''t0'',
        statistics = None,
        files = Some [''/v/a.mp3'' \<mapsto>
           \<lparr>hash = Some ''h'', status = Some ''completed'', processed_at = None,
            updated_at = None, outputs = None, metadata = None, error = None\<rparr>]\<rparr>)))
       ''/v/a.mp3''
     = Some \<lparr>hash = Some ''h'', status = Some ''completed'', processed_at = None,
            updated_at = None, outputs = None, metadata = None, error = None\<rparr>"
  by (simp add: load_def is_empty_document_def initialize_schema_def SCHEMA_VERSION_def
        get_files_def)

text \<open>
  Claim C9, amended. The loader reinitialises to the empty schema when there is no store,
  when the store does not parse to a dictionary or is truncated, and when the document
  carries no version tag. A document that carries a version tag, whatever its value, is
  kept as loaded, entries included: the tag is not compared with the supported version.
\<close>

theorem load_checks_version_presence:
  "(version doc = None \<longrightarrow> load now (Some (Document doc)) = initialize_schema now)
   \<and> (version doc \<noteq> None \<longrightarrow> load now (Some (Document doc)) = doc)
   \<and> load now None = initialize_schema now
   \<and> load now (Some Invalid) = initialize_schema now
   \<and> load now (Some (Truncated doc n)) = initialize_schema now
   \<and> version (initialize_schema now) = Some SCHEMA_VERSION
   \<and> files (initialize_schema now) = Some Map.empty"
  by (auto simp: load_def is_empty_document_def initialize_schema_def)

theorem load_checks_version_presence_witness:
  "version \<lparr>version = None, created_at = None, last_updated = None, statistics = None,
            files = Some [''/v/a.mp3'' \<mapsto>
              \<lparr>hash = Some ''h'', status = Some ''completed'', processed_at = None,
               updated_at = None, outputs = None, metadata = None, error = None\<rparr>]\<rparr> = None
   \<and> load ''t1'' (Some (Document
        \<lparr>version = None, created_at = None, last_updated = None, statistics = None,
         files = Some [''/v/a.mp3'' \<mapsto>
           \<lparr>hash = Some ''h'', status = Some ''completed'', processed_at = None,
            updated_at = None, outputs = None, metadata = None, error = None\<rparr>]\<rparr>))
       = initialize_schema ''t1''
   \<and> version \<lparr>version = Some ''1.0.0'', created_at = None, last_updated = None,
              statistics = None, files = None\<rparr> \<noteq> None
   \<and> load ''t1'' (Some (Document
        \<lparr>version = Some ''1.0.0'', created_at = None, last_updated = None,
         statistics = None, files = None\<rparr>))
       = \<lparr>version = Some ''1.0.0'', created_at = None, last_updated = None,
          statistics = None, files = None\<rparr>"
  using load_checks_version_presence
          [of "\<lparr>version = None, created_at = None, last_updated = None, statistics = None,
                files = Some [''/v/a.mp3'' \<mapsto>
                  \<lparr>hash = Some ''h'', status = Some ''completed'', processed_at = None,
                   updated_at = None, outputs = None, metadata = None, error = None\<rparr>]\<rparr>"
              "''t1''"]
        load_checks_version_presence
          [of "\<lparr>version = Some ''1.0.0'', created_at = None, last_updated = None,
                statistics = None, files = None\<rparr>" "''t1''"]
  by simp

section \<open>Verification: orchestrator\<close>

text \<open>
  Claim C6, as stated, fails at the boundary. With a probed duration of exactly the
  threshold, 600 seconds, and splitting enabled, \<^verbatim>\<open>transcribe_file\<close> returns what the
  direct path returns (the client's answer for a whole file), not what the segmented
  path returns for the same file.
\<close>

theorem transcribe_file_at_threshold_is_direct:
  "get_audio_duration (example_env three_intervals) [''/v/a.wav'' \<mapsto> ''pcm''] ''/v/a.wav''
     = Inr 600
   \<and> transcribe_file (example_env three_intervals) example_client [''/v/a.wav'' \<mapsto> ''pcm'']
        ''/v/a.wav'' True 600
     = transcribe_direct example_client [''/v/a.wav'' \<mapsto> ''pcm''] ''/v/a.wav''
   \<and> fst (transcribe_file (example_env three_intervals) example_client
             [''/v/a.wav'' \<mapsto> ''pcm''] ''/v/a.wav'' True 600) = Inr ''whole''
   \<and> fst (transcribe_file (example_env three_intervals) example_client
             [''/v/a.wav'' \<mapsto> ''pcm''] ''/v/a.wav'' True 600)
     \<noteq> fst (transcribe_with_vad (example_env three_intervals) example_client
               [''/v/a.wav'' \<mapsto> ''pcm''] ''/v/a.wav'')"
  by (simp add: transcribe_file_def transcribe_direct_def transcribe_with_vad_def
        get_audio_duration_def example_env_def example_client_def three_intervals_def
        split_audio_def convert_to_wav_def split_body_def create_audio_segments_def
        group_segments_def MAX_SEGMENT_DURATION_def lower_def lower_char_def
        str_nat.simps Let_def)

text \<open>
  Claim C6, amended. For a probed duration \<open>d\<close> and threshold \<open>t\<close>: if \<open>d\<close> is at most
  \<open>t\<close>, the boundary \<open>d = t\<close> included, or splitting is switched off, the direct path is
  taken; if \<open>d\<close> is strictly above \<open>t\<close> and splitting is enabled, the segmented path is
  taken.
\<close>

theorem transcribe_file_route:
  assumes "get_audio_duration env fs audio_path = Inr d"
  shows "(d \<le> t \<or> \<not> use_vad \<longrightarrow>
            transcribe_file env cl fs audio_path use_vad t = transcribe_direct cl fs audio_path)
         \<and> (t < d \<and> use_vad \<longrightarrow>
            transcribe_file env cl fs audio_path use_vad t
              = transcribe_with_vad env cl fs audio_path)"
  using assms by (auto simp: transcribe_file_def)

lemma example_duration:
  "get_audio_duration (example_env speech) fs p = Inr 600"
  by (simp add: get_audio_duration_def example_env_def)

theorem transcribe_file_route_witness:
  "get_audio_duration (example_env three_intervals) [''/v/a.wav'' \<mapsto> ''pcm''] ''/v/a.wav''
     = Inr 600
   \<and> (600::real) \<le> 600
   \<and> transcribe_file (example_env three_intervals) example_client [''/v/a.wav'' \<mapsto> ''pcm'']
        ''/v/a.wav'' True 600
     = transcribe_direct example_client [''/v/a.wav'' \<mapsto> ''pcm''] ''/v/a.wav''
   \<and> ((599::real) < 600 \<and> True)
   \<and> transcribe_file (example_env three_intervals) example_client [''/v/a.wav'' \<mapsto> ''pcm'']
        ''/v/a.wav'' True 599
     = transcribe_with_vad (example_env three_intervals) example_client
         [''/v/a.wav'' \<mapsto> ''pcm''] ''/v/a.wav''"
  using example_duration[of three_intervals "[''/v/a.wav'' \<mapsto> ''pcm'']" "''/v/a.wav''"]
    transcribe_file_route[where env = "example_env three_intervals"
      and fs = "[''/v/a.wav'' \<mapsto> ''pcm'']" and audio_path = "''/v/a.wav''" and d = 600
      and t = 600 and use_vad = True and cl = example_client]
    transcribe_file_route[where env = "example_env three_intervals"
      and fs = "[''/v/a.wav'' \<mapsto> ''pcm'']" and audio_path = "''/v/a.wav''" and d = 600
      and t = 599 and use_vad = True and cl = example_client]
  by simp

lemma upt_0_Suc: "[0..<Suc n] = 0 # map Suc [0..<n]"
proof -
  have "[0..<Suc n] = 0 # [Suc 0..<Suc n]"
    by (rule upt_conv_Cons) simp
  then show ?thesis
    by (simp only: map_Suc_upt)
qed

lemma transcribe_segments_blocks:
  "transcribe_segments cl i segs fs acc
     = (acc @ map (\<lambda>j. segment_block cl (i + j) (files_removed (take j segs) fs) (segs ! j))
               [0..<length segs],
        files_removed segs fs)"
proof (induction segs arbitrary: i fs acc)
  case Nil
  show ?case by simp
next
  case (Cons seg rest)
  let ?fs' = "fs(snd (snd seg) := None)"
  let ?f = "\<lambda>j. segment_block cl (i + j) (files_removed (take j (seg # rest)) fs)
                  ((seg # rest) ! j)"
  let ?g = "\<lambda>j. segment_block cl (Suc i + j) (files_removed (take j rest) ?fs') (rest ! j)"
  have f0: "?f 0 = segment_block cl i fs seg" by simp
  have fg: "?f (Suc j) = ?g j" for j by simp
  have "map ?f [0..<length (seg # rest)] = ?f 0 # map ?f (map Suc [0..<length rest])"
    by (simp only: length_Cons upt_0_Suc list.map)
  also have "map ?f (map Suc [0..<length rest]) = map (\<lambda>j. ?f (Suc j)) [0..<length rest]"
    by (simp only: map_map o_def)
  also have "\<dots> = map ?g [0..<length rest]"
    by (simp only: fg)
  finally have blocks: "map ?f [0..<length (seg # rest)]
                          = segment_block cl i fs seg # map ?g [0..<length rest]"
    by (simp only: f0)
  have "transcribe_segments cl i (seg # rest) fs acc
          = transcribe_segments cl (Suc i) rest ?fs' (acc @ [segment_block cl i fs seg])"
    by simp
  also have "\<dots> = ((acc @ [segment_block cl i fs seg]) @ map ?g [0..<length rest],
                     files_removed rest ?fs')"
    by (rule Cons.IH)
  finally show ?case
    by (simp only: blocks files_removed.simps append_assoc append_Cons append_Nil)
qed

lemma join_Cons: "join sep (x # xs) = x @ concat (map ((@) sep) xs)"
  by (induction xs arbitrary: x) simp_all

lemma join_map_upt:
  "join sep (map B [0..<n]) = concat (map (\<lambda>j. (if j = 0 then [] else sep) @ B j) [0..<n])"
proof (cases n)
  case 0
  then show ?thesis by simp
next
  case (Suc m)
  have "join sep (map B [0..<Suc m]) = join sep (B 0 # map (\<lambda>j. B (Suc j)) [0..<m])"
    by (simp only: upt_0_Suc list.map map_map o_def)
  also have "\<dots> = B 0 @ concat (map ((@) sep) (map (\<lambda>j. B (Suc j)) [0..<m]))"
    by (rule join_Cons)
  also have "\<dots> = concat (map (\<lambda>j. (if j = 0 then [] else sep) @ B j) [0..<Suc m])"
    by (simp add: upt_0_Suc o_def del: upt_Suc)
  finally show ?thesis using Suc by simp
qed

text \<open>
  Claim C7. Let the splitter return \<open>n\<close> segments, let the client's call for the segment
  at position \<open>k\<close> (the segment number \<open>k + 1\<close>) fail with the error \<open>err\<close>, and let its
  call for every other position \<open>j\<close> return the text \<open>texts j\<close>. Then the segmented
  transcription returns normally, and its text is the concatenation, in the order of the
  segments, of one block for each of the \<open>n\<close> positions, every block but the first
  preceded by two newline characters (a blank line). The block at position \<open>k\<close> is the
  failure placeholder: its opening text, the decimal segment number \<open>k + 1\<close>, its middle
  text, the text of the error, and a closing bracket. Every other block is the text of
  its segment.
\<close>

theorem transcribe_with_vad_partial_failure:
  assumes "split_audio env fs audio_path MAX_SEGMENT_DURATION = (Inr segments, fs1)"
    and "k < length segments"
    and "\<forall>j < length segments.
           cl j (files_removed (take j segments) fs1) (snd (snd (segments ! j)))
              (Some (fst (segments ! j), fst (snd (segments ! j))))
             = (if j = k then Inl err else Inr (texts j))"
  shows "fst (transcribe_with_vad env cl fs audio_path)
           = Inr (concat
                    (map (\<lambda>j. (if j = 0 then [] else [CHR 0x0A, CHR 0x0A])
                               @ (if j = k
                                  then placeholder_prefix @ str_nat (k + 1)
                                         @ placeholder_middle @ str_exn err @ '']''
                                  else texts j))
                       [0..<length segments]))"
proof -
  let ?block = "\<lambda>j. if j = k
                     then placeholder_prefix @ str_nat (k + 1) @ placeholder_middle
                            @ str_exn err @ '']''
                     else texts j"
  have block: "segment_block cl j (files_removed (take j segments) fs1) (segments ! j)
                 = ?block j"
    if "j < length segments" for j
  proof -
    obtain s e q where seg: "segments ! j = (s, e, q)" by (cases "segments ! j") auto
    from assms(3) that seg
    have "cl j (files_removed (take j segments) fs1) q (Some (s, e))
            = (if j = k then Inl err else Inr (texts j))"
      by fastforce
    with seg show ?thesis by (simp add: failure_placeholder_def)
  qed
  have blocks: "map (\<lambda>j. segment_block cl j (files_removed (take j segments) fs1)
                          (segments ! j)) [0..<length segments]
                  = map ?block [0..<length segments]"
    by (rule map_cong) (simp_all add: block)
  have "fst (transcribe_with_vad env cl fs audio_path)
          = Inr (join [CHR 0x0A, CHR 0x0A]
                   (map (\<lambda>j. segment_block cl j (files_removed (take j segments) fs1)
                                (segments ! j))
                      [0..<length segments]))"
    using assms(1) by (simp add: transcribe_with_vad_def transcribe_segments_blocks)
  also have "\<dots> = Inr (join [CHR 0x0A, CHR 0x0A] (map ?block [0..<length segments]))"
    by (simp only: blocks)
  also have "\<dots> = Inr (concat
                        (map (\<lambda>j. (if j = 0 then [] else [CHR 0x0A, CHR 0x0A]) @ ?block j)
                           [0..<length segments]))"
    by (simp only: join_map_upt)
  finally show ?thesis .
qed

lemma example_client_segment:
  "example_client j fs' q (Some x)
     = (if j = 1 then Inl (Exception ''Maximum retries (5) reached. Last error: 503'')
        else Inr ''part'')"
  by (simp add: example_client_def)

lemma example_split:
  "split_audio (example_env three_intervals) [''/v/a.wav'' \<mapsto> ''pcm''] ''/v/a.wav''
       MAX_SEGMENT_DURATION
     = (Inr [(0, 5, ''/tmp/x_segment_0.wav''), (700, 705, ''/tmp/x_segment_1.wav''),
             (1400, 1405, ''/tmp/x_segment_2.wav'')],
        [''/v/a.wav'' \<mapsto> ''pcm'', ''/tmp/x_segment_0.wav'' \<mapsto> ''pcm'',
         ''/tmp/x_segment_1.wav'' \<mapsto> ''pcm'', ''/tmp/x_segment_2.wav'' \<mapsto> ''pcm''])"
  by (simp add: example_env_def three_intervals_def split_audio_def convert_to_wav_def
        split_body_def create_audio_segments_def group_segments_def
        MAX_SEGMENT_DURATION_def lower_def lower_char_def str_nat.simps Let_def)

theorem transcribe_with_vad_partial_failure_witness:
  "split_audio (example_env three_intervals) [''/v/a.wav'' \<mapsto> ''pcm''] ''/v/a.wav''
       MAX_SEGMENT_DURATION
     = (Inr [(0, 5, ''/tmp/x_segment_0.wav''), (700, 705, ''/tmp/x_segment_1.wav''),
             (1400, 1405, ''/tmp/x_segment_2.wav'')],
        [''/v/a.wav'' \<mapsto> ''pcm'', ''/tmp/x_segment_0.wav'' \<mapsto> ''pcm'',
         ''/tmp/x_segment_1.wav'' \<mapsto> ''pcm'', ''/tmp/x_segment_2.wav'' \<mapsto> ''pcm''])
   \<and> (1::nat) < length [(0::real, 5::real, ''/tmp/x_segment_0.wav''),
                         (700, 705, ''/tmp/x_segment_1.wav''),
                         (1400, 1405, ''/tmp/x_segment_2.wav'')]
   \<and> example_client 0 [''/v/a.wav'' \<mapsto> ''pcm'', ''/tmp/x_segment_0.wav'' \<mapsto> ''pcm'',
         ''/tmp/x_segment_1.wav'' \<mapsto> ''pcm'', ''/tmp/x_segment_2.wav'' \<mapsto> ''pcm'']
        ''/tmp/x_segment_0.wav'' (Some (0, 5)) = Inr ''part''
   \<and> example_client 1 [''/v/a.wav'' \<mapsto> ''pcm'', ''/tmp/x_segment_1.wav'' \<mapsto> ''pcm'',
         ''/tmp/x_segment_2.wav'' \<mapsto> ''pcm''] ''/tmp/x_segment_1.wav'' (Some (700, 705))
       = Inl (Exception ''Maximum retries (5) reached. Last error: 503'')
   \<and> example_client 2 [''/v/a.wav'' \<mapsto> ''pcm'', ''/tmp/x_segment_2.wav'' \<mapsto> ''pcm'']
        ''/tmp/x_segment_2.wav'' (Some (1400, 1405)) = Inr ''part''
   \<and> fst (transcribe_with_vad (example_env three_intervals) example_client
             [''/v/a.wav'' \<mapsto> ''pcm''] ''/v/a.wav'')
       = Inr (''part''
              @ [CHR 0x0A, CHR 0x0A]
              @ [CHR 0x5B, CHR 0xE3, CHR 0x82, CHR 0xBB, CHR 0xE3, CHR 0x82, CHR 0xB0,
                 CHR 0xE3, CHR 0x83, CHR 0xA1, CHR 0xE3, CHR 0x83, CHR 0xB3, CHR 0xE3,
                 CHR 0x83, CHR 0x88, CHR 0x20]
              @ ''2''
              @ [CHR 0x20, CHR 0xE3, CHR 0x81, CHR 0xAE, CHR 0xE6, CHR 0x96, CHR 0x87,
                 CHR 0xE5, CHR 0xAD, CHR 0x97, CHR 0xE8, CHR 0xB5, CHR 0xB7, CHR 0xE3,
                 CHR 0x81, CHR 0x93, CHR 0xE3, CHR 0x81, CHR 0x97, CHR 0xE3, CHR 0x81,
                 CHR 0xAB, CHR 0xE5, CHR 0xA4, CHR 0xB1, CHR 0xE6, CHR 0x95, CHR 0x97,
                 CHR 0x3A, CHR 0x20]
              @ ''Maximum retries (5) reached. Last error: 503''
              @ '']''
              @ [CHR 0x0A, CHR 0x0A]
              @ ''part'')"
proof -
  let ?segs = "[(0::real, 5::real, ''/tmp/x_segment_0.wav''),
                (700, 705, ''/tmp/x_segment_1.wav''),
                (1400, 1405, ''/tmp/x_segment_2.wav'')]"
  let ?fs1 = "[''/v/a.wav'' \<mapsto> ''pcm'', ''/tmp/x_segment_0.wav'' \<mapsto> ''pcm'',
               ''/tmp/x_segment_1.wav'' \<mapsto> ''pcm'', ''/tmp/x_segment_2.wav'' \<mapsto> ''pcm'']"
  let ?err = "Exception ''Maximum retries (5) reached. Last error: 503''"
  have h1: "split_audio (example_env three_intervals) [''/v/a.wav'' \<mapsto> ''pcm''] ''/v/a.wav''
              MAX_SEGMENT_DURATION = (Inr ?segs, ?fs1)"
    by (rule example_split)
  have h2: "(1::nat) < length ?segs" by simp
  have h3: "\<forall>j < length ?segs.
              example_client j (files_removed (take j ?segs) ?fs1) (snd (snd (?segs ! j)))
                 (Some (fst (?segs ! j), fst (snd (?segs ! j))))
                = (if j = 1 then Inl ?err else Inr ((\<lambda>j. ''part'') j))"
    by (simp only: example_client_segment simp_thms)
  have upt3: "[0..<length ?segs] = [0, 1, 2]"
    by (simp add: upt_rec)
  have two: "str_nat (1 + 1) = ''2''"
    by (simp add: str_nat.simps)
  have calls: "example_client 0 ?fs1 ''/tmp/x_segment_0.wav'' (Some (0, 5)) = Inr ''part''"
    "example_client 1 [''/v/a.wav'' \<mapsto> ''pcm'', ''/tmp/x_segment_1.wav'' \<mapsto> ''pcm'',
         ''/tmp/x_segment_2.wav'' \<mapsto> ''pcm''] ''/tmp/x_segment_1.wav'' (Some (700, 705))
       = Inl ?err"
    "example_client 2 [''/v/a.wav'' \<mapsto> ''pcm'', ''/tmp/x_segment_2.wav'' \<mapsto> ''pcm'']
        ''/tmp/x_segment_2.wav'' (Some (1400, 1405)) = Inr ''part''"
    by (simp_all add: example_client_def)
  have res: "fst (transcribe_with_vad (example_env three_intervals) example_client
               [''/v/a.wav'' \<mapsto> ''pcm''] ''/v/a.wav'')
       = Inr (''part''
              @ [CHR 0x0A, CHR 0x0A]
              @ [CHR 0x5B, CHR 0xE3, CHR 0x82, CHR 0xBB, CHR 0xE3, CHR 0x82, CHR 0xB0,
                 CHR 0xE3, CHR 0x83, CHR 0xA1, CHR 0xE3, CHR 0x83, CHR 0xB3, CHR 0xE3,
                 CHR 0x83, CHR 0x88, CHR 0x20]
              @ ''2''
              @ [CHR 0x20, CHR 0xE3, CHR 0x81, CHR 0xAE, CHR 0xE6, CHR 0x96, CHR 0x87,
                 CHR 0xE5, CHR 0xAD, CHR 0x97, CHR 0xE8, CHR 0xB5, CHR 0xB7, CHR 0xE3,
                 CHR 0x81, CHR 0x93, CHR 0xE3, CHR 0x81, CHR 0x97, CHR 0xE3, CHR 0x81,
                 CHR 0xAB, CHR 0xE5, CHR 0xA4, CHR 0xB1, CHR 0xE6, CHR 0x95, CHR 0x97,
                 CHR 0x3A, CHR 0x20]
              @ ''Maximum retries (5) reached. Last error: 503''
              @ '']''
              @ [CHR 0x0A, CHR 0x0A]
              @ ''part'')"
    using transcribe_with_vad_partial_failure[where texts = "\<lambda>j. ''part''" and k = 1
        and err = ?err and cl = example_client, OF h1 h2 h3]
    by (simp only: upt3 two) (simp add: placeholder_prefix_def placeholder_middle_def)
  from h1 h2 calls res show ?thesis
    by (intro conjI)
qed

text \<open>
  Claim C10. Let the conversion block of \<^verbatim>\<open>split_audio\<close> succeed, let the detector report
  no speech timestamps for the WAV file, and let the duration probe succeed with \<open>d\<close>.
  Then \<^verbatim>\<open>split_audio\<close> returns the single segment \<open>(0, d, audio_path)\<close>, whose path is
  the source file itself, and after \<^verbatim>\<open>_transcribe_with_vad\<close>, which returns the block of
  that one segment whether its transcription succeeded or not, the source path is no
  longer in the file system.
\<close>

theorem no_speech_removes_source:
  assumes "convert_to_wav env fs audio_path = Inr (fs1, wav_path, temp_wav_path)"
    and "speech_timestamps env fs1 wav_path = Inr []"
    and "get_audio_duration env fs1 audio_path = Inr d"
  shows "split_audio env fs audio_path max_duration
           = (Inr [(0, d, audio_path)],
              case temp_wav_path of None \<Rightarrow> fs1 | Some t \<Rightarrow> fs1(t := None))
         \<and> transcribe_with_vad env cl fs audio_path
           = (Inr (segment_block cl 0
                     (case temp_wav_path of None \<Rightarrow> fs1 | Some t \<Rightarrow> fs1(t := None))
                     (0, d, audio_path)),
              (case temp_wav_path of None \<Rightarrow> fs1 | Some t \<Rightarrow> fs1(t := None))
                (audio_path := None))
         \<and> snd (transcribe_with_vad env cl fs audio_path) audio_path = None"
proof -
  define fs2 where "fs2 = (case temp_wav_path of None \<Rightarrow> fs1 | Some t \<Rightarrow> fs1(t := None))"
  have sp: "split_audio env fs audio_path max_duration = (Inr [(0, d, audio_path)], fs2)"
    for max_duration
    using assms by (simp add: split_audio_def split_body_def fs2_def)
  have run: "transcribe_with_vad env cl fs audio_path
               = (Inr (segment_block cl 0 fs2 (0, d, audio_path)), fs2(audio_path := None))"
    by (simp add: transcribe_with_vad_def sp del: segment_block.simps)
  have gone: "snd (transcribe_with_vad env cl fs audio_path) audio_path = None"
    by (simp only: run snd_conv fun_upd_same)
  from sp[of max_duration] run gone show ?thesis
    unfolding fs2_def by (intro conjI)
qed

theorem no_speech_removes_source_witness:
  "convert_to_wav (example_env []) [''/v/a.mp3'' \<mapsto> ''mp3 data''] ''/v/a.mp3''
     = Inr ([''/v/a.mp3'' \<mapsto> ''mp3 data'', ''/tmp/x.wav'' \<mapsto> ''mp3 data''], ''/tmp/x.wav'',
            Some ''/tmp/x.wav'')
   \<and> speech_timestamps (example_env [])
        [''/v/a.mp3'' \<mapsto> ''mp3 data'', ''/tmp/x.wav'' \<mapsto> ''mp3 data''] ''/tmp/x.wav'' = Inr []
   \<and> get_audio_duration (example_env [])
        [''/v/a.mp3'' \<mapsto> ''mp3 data'', ''/tmp/x.wav'' \<mapsto> ''mp3 data''] ''/v/a.mp3'' = Inr 600
   \<and> [''/v/a.mp3'' \<mapsto> ''mp3 data''] ''/v/a.mp3'' = Some ''mp3 data''
   \<and> fst (split_audio (example_env []) [''/v/a.mp3'' \<mapsto> ''mp3 data''] ''/v/a.mp3''
            MAX_SEGMENT_DURATION) = Inr [(0, 600, ''/v/a.mp3'')]
   \<and> fst (transcribe_with_vad (example_env []) example_client [''/v/a.mp3'' \<mapsto> ''mp3 data'']
            ''/v/a.mp3'') = Inr ''part''
   \<and> snd (transcribe_with_vad (example_env []) example_client [''/v/a.mp3'' \<mapsto> ''mp3 data'']
            ''/v/a.mp3'') ''/v/a.mp3'' = None"
proof -
  let ?fs = "[''/v/a.mp3'' \<mapsto> ''mp3 data'']"
  let ?fs1 = "[''/v/a.mp3'' \<mapsto> ''mp3 data'', ''/tmp/x.wav'' \<mapsto> ''mp3 data'']"
  have h1: "convert_to_wav (example_env []) ?fs ''/v/a.mp3''
              = Inr (?fs1, ''/tmp/x.wav'', Some ''/tmp/x.wav'')"
    by (simp add: convert_to_wav_def example_env_def lower_def lower_char_def
          suffix_to_prefix Let_def)
  have h2: "speech_timestamps (example_env []) ?fs1 ''/tmp/x.wav'' = Inr []"
    by (simp add: example_env_def)
  have h3: "get_audio_duration (example_env []) ?fs1 ''/v/a.mp3'' = Inr 600"
    by (rule example_duration)
  have h4: "?fs ''/v/a.mp3'' = Some ''mp3 data''" by simp
  show ?thesis
    using h1 h2 h3 h4
      no_speech_removes_source[OF h1 h2 h3, of MAX_SEGMENT_DURATION example_client]
    by (simp add: example_client_def)
qed

end
